theory Spec2Isabelle
  imports Main
begin

section \<open>The cross-organization people API (api/client/people.ts)\<close>

text \<open>
  The module serves the list of people across organizations. It consists of
  \<^item> a memo cache with a time-to-live, used under the single key \<open>true\<close>
    (\<open>leakyLocalCachePeople\<close>),
  \<^item> \<open>getPeopleAcrossOrganizations\<close>, which fetches or populates the cached snapshot,
  \<^item> \<open>equivalentLegacyPeopleSearch\<close>, which reads the query and runs the member search,
  \<^item> the route \<open>GET /\<close>, which slices the members found with a \<open>JsonPager\<close> and maps
    every member of the page to a flat output object.

  Asynchronous calls are modelled sequentially; a rejected promise or a thrown value is
  the left injection of a sum, and the module-level cache is passed as explicit state.
\<close>

subsection \<open>Values\<close>

datatype error = Error string

text \<open>
  What a variable of type \<open>ICrossOrganizationMembersResult\<close> can hold at run time. The
  module is compiled without strict null checks (line 56 assigns \<open>null\<close> to a \<open>string\<close>),
  so \<open>null\<close> and \<open>undefined\<close> inhabit the type next to the snapshot itself.
\<close>

datatype 'm js_value = Undefined | Null | Snapshot 'm

text \<open>JavaScript truthiness, as used by \<open>if (value)\<close>: an object is truthy.\<close>

fun truthy :: "'m js_value \<Rightarrow> bool" where
  "truthy Undefined = False"
| "truthy Null = False"
| "truthy (Snapshot m) = True"

text \<open>Truthiness of a string-valued query parameter: absent or empty is falsy.\<close>

fun truthy_string :: "string option \<Rightarrow> bool" where
  "truthy_string None = False"
| "truthy_string (Some s) = (s \<noteq> [])"

subsection \<open>The memo cache with a time-to-live\<close>

text \<open>
  Modelled from the spec: the class \<open>LeakyLocalCache\<close> (./leakyLocalCache) is imported by
  people.ts and its file is not among the sources. Following section 4.1 and the data
  model of the specification, the cache has a time-to-live fixed at construction, and an
  entry holds a value and the time of its insertion. Times are milliseconds as integers.
\<close>

record ('k, 'v) LeakyLocalCache =
  ttl :: int
  entries :: "'k \<rightharpoonup> ('v \<times> int)"

text \<open>
  Modelled from the spec: the constructor of \<open>LeakyLocalCache\<close>; a new cache has no
  entries.
\<close>

definition newLeakyLocalCache :: "int \<Rightarrow> ('k, 'v) LeakyLocalCache" where
  "newLeakyLocalCache lifetime = \<lparr>ttl = lifetime, entries = Map.empty\<rparr>"

text \<open>
  Modelled from the spec: \<open>LeakyLocalCache.get\<close>. It returns the cached value if an entry
  exists for the key and has not exceeded the time-to-live (an entry is valid only while
  \<open>now - insertedAt < ttl\<close>), and absent otherwise; it leaves the cache as it is.
\<close>

definition cache_get :: "('k, 'v) LeakyLocalCache \<Rightarrow> int \<Rightarrow> 'k \<Rightarrow> 'v option" where
  "cache_get c now key =
     (case entries c key of
        None \<Rightarrow> None
      | Some (v, insertedAt) \<Rightarrow> if now - insertedAt < ttl c then Some v else None)"

text \<open>
  Modelled from the spec: \<open>LeakyLocalCache.set\<close>. It inserts or overwrites the entry for
  the key with the value and the current time.
\<close>

definition cache_set :: "('k, 'v) LeakyLocalCache \<Rightarrow> int \<Rightarrow> 'k \<Rightarrow> 'v \<Rightarrow> ('k, 'v) LeakyLocalCache" where
  "cache_set c now key v = c\<lparr>entries := (entries c)(key \<mapsto> (v, now))\<rparr>"

text \<open>A run of further \<open>set\<close> calls, each given as (time, key, value), oldest first.\<close>

fun cache_sets :: "('k, 'v) LeakyLocalCache \<Rightarrow> (int \<times> 'k \<times> 'v) list \<Rightarrow> ('k, 'v) LeakyLocalCache" where
  "cache_sets c [] = c"
| "cache_sets c ((t, k, v) # rest) = cache_sets (cache_set c t k v) rest"

subsection \<open>Fetch or populate the snapshot\<close>

text \<open>
  The state the module shares between requests: the cache declared at line 25, and the
  number of times \<open>operations.getMembers\<close> has been invoked so far.
\<close>

record 'm world =
  leakyLocalCachePeople :: "(bool, 'm js_value) LeakyLocalCache"
  fetches :: nat

text \<open>The options of a \<open>MemberSearch\<close>, as lines 74 to 83 give them.\<close>

record ('m, 'l) search_options =
  phrase :: "string option"
  type :: "string option"
  pageSize :: nat
  links :: 'l
  orgId :: "int option"
  crossOrganizationMembers :: "'m js_value"
  isOrganizationScoped :: bool

text \<open>
  The member a search leaves (\<open>ICrossOrganizationSearchedMember\<close>) and its account
  (\<open>ISimpleAccount\<close>). The optional members are absent as \<open>None\<close>. The per-organization
  mapping \<open>orgs\<close> lists its own properties in the order in which
  \<open>Object.getOwnPropertyNames\<close> enumerates them.
\<close>

record ISimpleAccount =
  login :: string
  avatar_url :: string
  account_id :: int

record 'c ICrossOrganizationSearchedMember =
  member_id :: int
  account :: "ISimpleAccount option"
  link :: "'c option"
  orgs :: "(string \<times> ISimpleAccount) list option"

text \<open>
  The collaborators of the module, none of which is defined in people.ts:
  \<open>getMembers n\<close> is the outcome of the invocation of \<open>operations.getMembers()\<close> that
  follows \<open>n\<close> earlier ones, \<open>getLinksLightCache\<close> the outcome of the link lookup,
  \<open>memberSearch\<close> the members left by \<open>new MemberSearch(options).search(page, sort)\<close>,
  \<open>corporateLinkToJson\<close> the serialization of a link and \<open>Number\<close> the conversion of
  a query string to a (whole) number.
\<close>

record ('m, 'l, 'c, 'j) providers =
  getMembers :: "nat \<Rightarrow> error + 'm js_value"
  getLinksLightCache :: "error + 'l"
  memberSearch :: "('m, 'l) search_options \<Rightarrow> int \<Rightarrow> string option
                     \<Rightarrow> error + 'c ICrossOrganizationSearchedMember list"
  corporateLinkToJson :: "'c \<Rightarrow> 'j"
  Number :: "string \<Rightarrow> int"

text \<open>The object \<open>{ crossOrganizationMembers }\<close> that lines 30 and 34 return.\<close>

record 'm people =
  members_of :: "'m js_value"

text \<open>
  Line 28: \<open>leakyLocalCachePeople.get(true)\<close> as a JavaScript value; a lookup that finds
  nothing yields \<open>undefined\<close>.
\<close>

definition people_cache_get :: "'m world \<Rightarrow> int \<Rightarrow> 'm js_value" where
  "people_cache_get w now =
     (case cache_get (leakyLocalCachePeople w) now True of None \<Rightarrow> Undefined | Some v \<Rightarrow> v)"

text \<open>
  Lines 27 to 35. The cache is read at time \<open>t_get\<close>; when the awaited fetch resolves,
  the cache is written at time \<open>t_set\<close>; when it rejects, line 33 is not reached.
\<close>

definition getPeopleAcrossOrganizations ::
  "('m, 'l, 'c, 'j) providers \<Rightarrow> int \<Rightarrow> int \<Rightarrow> 'm world \<Rightarrow> (error + 'm people) \<times> 'm world" where
  "getPeopleAcrossOrganizations operations t_get t_set w =
     (let value = people_cache_get w t_get in
      if truthy value
      then (Inr \<lparr>members_of = value\<rparr>, w)
      else
        (let w1 = w\<lparr>fetches := Suc (fetches w)\<rparr> in
         case getMembers operations (fetches w) of
           Inl e \<Rightarrow> (Inl e, w1)
         | Inr fetched \<Rightarrow>
             (Inr \<lparr>members_of = fetched\<rparr>,
              w1\<lparr>leakyLocalCachePeople :=
                   cache_set (leakyLocalCachePeople w1) t_set True fetched\<rparr>)))"

subsection \<open>The search behind the route\<close>

record Organization =
  name :: string
  org_id :: int

record query =
  page_number :: "string option"
  q :: "string option"
  type_param :: "string option"
  sort_param :: "string option"

record ReposAppRequest =
  req_query :: query
  organization :: "Organization option"

text \<open>Lines 46 to 54.\<close>

definition validTypes :: "string list" where
  "validTypes = [''linked'', ''active'', ''unlinked'', ''former'', ''serviceAccount'',
     ''unknownAccount'', ''owners'']"

text \<open>Line 43: the page handed to the search.\<close>

definition search_page :: "('m, 'l, 'c, 'j) providers \<Rightarrow> ReposAppRequest \<Rightarrow> int" where
  "search_page operations req =
     (case page_number (req_query req) of
        None \<Rightarrow> 1
      | Some s \<Rightarrow> if truthy_string (Some s) then Number operations s else 1)"

text \<open>Lines 45 to 57: \<open>type\<close> after the check against \<open>validTypes\<close>; \<open>None\<close> is \<open>null\<close>.\<close>

definition search_type :: "ReposAppRequest \<Rightarrow> string option" where
  "search_type req =
     (case type_param (req_query req) of
        None \<Rightarrow> None
      | Some t \<Rightarrow> if t \<in> set validTypes then Some t else None)"

text \<open>
  Lines 58 to 73: the local \<open>filters\<close>. It is built and never read again: it is not
  among the options of the search.
\<close>

record filter_entry =
  filter_type :: string
  filter_value :: string
  displayValue :: "string option"
  displaySuffix :: "string option"
  displayPrefix :: "string option"

definition search_filters :: "ReposAppRequest \<Rightarrow> filter_entry list" where
  "search_filters req =
     (case search_type req of
        None \<Rightarrow> []
      | Some t \<Rightarrow>
          if truthy_string (Some t)
          then [\<lparr>filter_type = ''type'', filter_value = t,
                 displayValue = Some (if t = ''former'' then ''formerly known'' else t),
                 displaySuffix = Some ''members'', displayPrefix = None\<rparr>]
          else [])
     @
     (case q (req_query req) of
        None \<Rightarrow> []
      | Some p \<Rightarrow>
          if truthy_string (Some p)
          then [\<lparr>filter_type = ''phrase'', filter_value = p,
                 displayValue = None, displaySuffix = None, displayPrefix = Some ''matching''\<rparr>]
          else [])"

text \<open>
  Lines 74 to 83: the options of the \<open>MemberSearch\<close>. The option \<open>providers\<close> is the
  fixed \<open>operations.providers\<close> and is part of \<open>memberSearch\<close> here.
\<close>

definition member_search_options ::
  "ReposAppRequest \<Rightarrow> 'l \<Rightarrow> 'm js_value \<Rightarrow> ('m, 'l) search_options" where
  "member_search_options req links_found members =
     \<lparr>phrase = q (req_query req),
      type = search_type req,
      pageSize = 1000000,
      links = links_found,
      orgId = map_option org_id (organization req),
      crossOrganizationMembers = members,
      isOrganizationScoped = False\<rparr>"

text \<open>Lines 37 to 86. The result is the \<open>members\<close> of the search that line 85 returns.\<close>

definition equivalentLegacyPeopleSearch ::
  "('m, 'l, 'c, 'j) providers \<Rightarrow> int \<Rightarrow> int \<Rightarrow> ReposAppRequest \<Rightarrow> 'm world
     \<Rightarrow> (error + 'c ICrossOrganizationSearchedMember list) \<times> 'm world" where
  "equivalentLegacyPeopleSearch operations t_get t_set req w =
     (case getLinksLightCache operations of
        Inl e \<Rightarrow> (Inl e, w)
      | Inr links_found \<Rightarrow>
          (case getPeopleAcrossOrganizations operations t_get t_set w of
             (Inl e, w') \<Rightarrow> (Inl e, w')
           | (Inr found, w') \<Rightarrow>
               (memberSearch operations
                  (member_search_options req links_found (members_of found))
                  (search_page operations req) (sort_param (req_query req)), w')))"

subsection \<open>The pager\<close>

text \<open>
  Modelled from the spec: the class \<open>JsonPager\<close> (./jsonPager), whose constructor and
  \<open>slice\<close> the route calls at lines 114 and 118; its file is not among the sources.
  Following sections 4.3 and 6 of the specification, a pager has the page number the
  request asks for and a page size.
\<close>

record JsonPager =
  requested_page :: int
  pager_pageSize :: nat

text \<open>
  Modelled from the spec: the constructor of \<open>JsonPager\<close>. The page number is that of the
  query parameter \<open>page_number\<close>, default 1, read as line 43 reads it; the page size is
  given.
\<close>

definition newJsonPager :: "('m, 'l, 'c, 'j) providers \<Rightarrow> nat \<Rightarrow> ReposAppRequest \<Rightarrow> JsonPager" where
  "newJsonPager operations page_size req =
     \<lparr>requested_page = search_page operations req, pager_pageSize = page_size\<rparr>"

text \<open>
  Modelled from the spec: the page number the pager works with; a page number below 1 is
  normalized to 1.
\<close>

definition pager_page :: "JsonPager \<Rightarrow> int" where
  "pager_page pager = (if requested_page pager < 1 then 1 else requested_page pager)"

text \<open>
  Modelled from the spec: \<open>JsonPager.slice\<close>. It returns the contiguous sub-sequence from
  \<open>(pageNumber - 1) * pageSize\<close> up to \<open>pageNumber * pageSize\<close>, clipped to the bounds
  of the collection; the collection is not changed.
\<close>

definition slice :: "JsonPager \<Rightarrow> 'a list \<Rightarrow> 'a list" where
  "slice pager array =
     take (pager_pageSize pager)
       (drop (nat (pager_page pager - 1) * pager_pageSize pager) array)"

subsection \<open>The output record\<close>

text \<open>
  The values of the properties of an output object, and an object as the list of its own
  properties in their order.
\<close>

datatype 'j json = JNull | JNumber int | JString string | JStrings "string list" | JLink 'j

type_synonym 'j object = "(string \<times> 'j json) list"

text \<open>\<open>obj[k] = v\<close>: an own property keeps its place, a new one goes last.\<close>

fun assign_property :: "'j object \<Rightarrow> string \<Rightarrow> 'j json \<Rightarrow> 'j object" where
  "assign_property [] k v = [(k, v)]"
| "assign_property ((k', v') # rest) k v =
     (if k' = k then (k, v) # rest else (k', v') # assign_property rest k v)"

text \<open>\<open>Object.assign(target, source)\<close>: every own property of the source, in order.\<close>

fun Object_assign :: "'j object \<Rightarrow> 'j object \<Rightarrow> 'j object" where
  "Object_assign target [] = target"
| "Object_assign target ((k, v) # rest) = Object_assign (assign_property target k v) rest"

definition get_property :: "'j object \<Rightarrow> string \<Rightarrow> 'j json option" where
  "get_property obj k = map_of obj k"

text \<open>An account as an object: the three properties of \<open>ISimpleAccount\<close>.\<close>

definition account_object :: "ISimpleAccount \<Rightarrow> 'j object" where
  "account_object a =
     [(''login'', JString (login a)), (''avatar_url'', JString (avatar_url a)),
      (''id'', JNumber (account_id a))]"

text \<open>Lines 119 to 126: the function mapped over the page.\<close>

definition member_to_output ::
  "('m, 'l, 'c, 'j) providers \<Rightarrow> 'c ICrossOrganizationSearchedMember \<Rightarrow> 'j object" where
  "member_to_output operations xMember =
     Object_assign
       [(''link'', case link xMember of
                     Some l \<Rightarrow> JLink (corporateLinkToJson operations l)
                   | None \<Rightarrow> JNull),
        (''id'', JNumber (member_id xMember)),
        (''organizations'', case orgs xMember of
                              Some os \<Rightarrow> JStrings (map fst os)
                            | None \<Rightarrow> JStrings [])]
       (case account xMember of
          Some a \<Rightarrow> account_object a
        | None \<Rightarrow> [(''id'', JNumber (member_id xMember))])"

text \<open>
  Lines 113 to 132: the route \<open>GET /\<close>. The result is the list handed to
  \<open>pager.sendJson\<close>, or the error handed to \<open>next\<close>.
\<close>

definition people_route ::
  "('m, 'l, 'c, 'j) providers \<Rightarrow> nat \<Rightarrow> int \<Rightarrow> int \<Rightarrow> ReposAppRequest \<Rightarrow> 'm world
     \<Rightarrow> (error + 'j object list) \<times> 'm world" where
  "people_route operations page_size t_get t_set req w =
     (let pager = newJsonPager operations page_size req in
      case equivalentLegacyPeopleSearch operations t_get t_set req w of
        (Inl repoError, w') \<Rightarrow> (Inl repoError, w')
      | (Inr members, w') \<Rightarrow>
          (Inr (map (member_to_output operations) (slice pager members)), w'))"

subsection \<open>Sample data\<close>

text \<open>
  Line 25: the state of the module before the first request. The time-to-live is the
  default of the constructor of the cache, which people.ts does not state.
\<close>

definition initial_world :: "int \<Rightarrow> 'm world" where
  "initial_world lifetime = \<lparr>leakyLocalCachePeople = newLeakyLocalCache lifetime, fetches = 0\<rparr>"

text \<open>\<open>Number\<close> on decimal numerals with an optional minus sign.\<close>

definition digits_value :: "string \<Rightarrow> int" where
  "digits_value s = foldl (\<lambda>n c. 10 * n + (of_char c - 48)) 0 s"

fun decimal :: "string \<Rightarrow> int" where
  "decimal [] = 0"
| "decimal (c # cs) = (if c = CHR ''-'' then - digits_value cs else digits_value (c # cs))"

text \<open>Three members across two organizations, the first of them linked.\<close>

definition octocat :: ISimpleAccount where
  "octocat = \<lparr>login = ''octocat'', avatar_url = ''https://avatars/1'', account_id = 1\<rparr>"

definition hubot :: ISimpleAccount where
  "hubot = \<lparr>login = ''hubot'', avatar_url = ''https://avatars/2'', account_id = 2\<rparr>"

definition sample_members :: "string ICrossOrganizationSearchedMember list" where
  "sample_members =
     [\<lparr>member_id = 1, account = Some octocat, link = Some ''octocat@corp'',
       orgs = Some [(''org-a'', octocat), (''org-b'', octocat)]\<rparr>,
      \<lparr>member_id = 2, account = Some hubot, link = None, orgs = Some [(''org-b'', hubot)]\<rparr>,
      \<lparr>member_id = 3, account = None, link = None, orgs = None\<rparr>]"

text \<open>
  Collaborators for the examples: the outcome of \<open>getMembers\<close> is given, the link lookup
  succeeds, and the search returns the linked members for a type filter and all members
  without one.
\<close>

definition sample_operations ::
  "(nat \<Rightarrow> error + nat js_value) \<Rightarrow> (nat, unit, string, string) providers" where
  "sample_operations outcome =
     \<lparr>getMembers = outcome,
      getLinksLightCache = Inr (),
      memberSearch = (\<lambda>options page sort_key.
         Inr (case type options of
                None \<Rightarrow> sample_members
              | Some t \<Rightarrow> filter (\<lambda>m. link m \<noteq> None) sample_members)),
      corporateLinkToJson = (\<lambda>l. ''{'' @ l @ ''}''),
      Number = decimal\<rparr>"

text \<open>A provider that resolves with \<open>null\<close> once and with a snapshot from then on.\<close>

definition null_then_snapshot :: "nat \<Rightarrow> error + nat js_value" where
  "null_then_snapshot n = (if n = 0 then Inr Null else Inr (Snapshot n))"

text \<open>A provider that fails once and resolves with a snapshot from then on.\<close>

definition failure_then_snapshot :: "nat \<Rightarrow> error + nat js_value" where
  "failure_then_snapshot n = (if n = 0 then Inl (Error ''unavailable'') else Inr (Snapshot n))"

section \<open>The cache\<close>

lemma cache_sets_ttl: "ttl (cache_sets c sets) = ttl c"
  by (induction c sets rule: cache_sets.induct) (simp_all add: cache_set_def)

lemma cache_sets_other_keys:
  "\<forall>s \<in> set sets. fst (snd s) \<noteq> key \<Longrightarrow> entries (cache_sets c sets) key = entries c key"
  by (induction c sets rule: cache_sets.induct) (auto simp add: cache_set_def)

text \<open>
  C1. After \<open>set(k, v)\<close> at time \<open>t0\<close>, and with no later \<open>set\<close> for \<open>k\<close> (further \<open>set\<close>
  calls for other keys may occur), \<open>get(k)\<close> at time \<open>t1\<close> returns \<open>v\<close> if and only if
  the time elapsed since the \<open>set\<close> is less than the time-to-live of the cache;
  once the time-to-live has elapsed it returns absent.
\<close>

theorem cache_get_after_set:
  assumes "\<forall>s \<in> set sets. fst (snd s) \<noteq> k"
  shows "(cache_get (cache_sets (cache_set c t0 k v) sets) t1 k = Some v \<longleftrightarrow> t1 - t0 < ttl c)
       \<and> (\<not> t1 - t0 < ttl c \<longrightarrow> cache_get (cache_sets (cache_set c t0 k v) sets) t1 k = None)"
proof -
  have e: "entries (cache_sets (cache_set c t0 k v) sets) k = Some (v, t0)"
    using cache_sets_other_keys [OF assms] by (simp add: cache_set_def)
  have t: "ttl (cache_sets (cache_set c t0 k v) sets) = ttl c"
    by (simp add: cache_sets_ttl cache_set_def)
  show ?thesis
    by (simp add: cache_get_def e t)
qed

theorem cache_get_after_set_witness:
  "(cache_get (cache_sets (cache_set (newLeakyLocalCache 600000) 1000 True (5::nat))
        [(2000, False, 7)]) 3000 True = Some 5 \<longleftrightarrow> (3000::int) - 1000 < 600000)
   \<and> cache_get (cache_sets (cache_set (newLeakyLocalCache 600000) 1000 True (5::nat))
        [(2000, False, 7)]) 601000 True = None"
  using cache_get_after_set [of "[(2000, False, 7)]" True "newLeakyLocalCache 600000" 1000 "5::nat" 3000]
    cache_get_after_set [of "[(2000, False, 7)]" True "newLeakyLocalCache 600000" 1000 "5::nat" 601000]
  by (simp add: newLeakyLocalCache_def)

section \<open>Fetch or populate\<close>

lemma getPeople_hit:
  "truthy (people_cache_get w t_get) \<Longrightarrow>
   getPeopleAcrossOrganizations operations t_get t_set w =
     (Inr \<lparr>members_of = people_cache_get w t_get\<rparr>, w)"
  by (simp add: getPeopleAcrossOrganizations_def)

lemma getPeople_miss:
  "\<not> truthy (people_cache_get w t_get) \<Longrightarrow>
   getPeopleAcrossOrganizations operations t_get t_set w =
     (case getMembers operations (fetches w) of
        Inl e \<Rightarrow> (Inl e, w\<lparr>fetches := Suc (fetches w)\<rparr>)
      | Inr fetched \<Rightarrow>
          (Inr \<lparr>members_of = fetched\<rparr>,
           w\<lparr>fetches := Suc (fetches w),
             leakyLocalCachePeople := cache_set (leakyLocalCachePeople w) t_set True fetched\<rparr>))"
  by (simp add: getPeopleAcrossOrganizations_def Let_def split: sum.splits)

lemma lookup_truthy:
  "cache_get (leakyLocalCachePeople w) t True = Some v \<Longrightarrow>
   people_cache_get w t = v"
  by (simp add: people_cache_get_def)

lemma lookup_absent:
  "cache_get (leakyLocalCachePeople w) t True = None \<Longrightarrow> \<not> truthy (people_cache_get w t)"
  by (simp add: people_cache_get_def)

lemma stale_stays_stale:
  assumes "\<not> truthy (people_cache_get w t1)" and "t1 \<le> t2"
  shows "\<not> truthy (people_cache_get w t2)"
proof (cases "entries (leakyLocalCachePeople w) True")
  case None
  then show ?thesis by (simp add: people_cache_get_def cache_get_def)
next
  case (Some entry)
  obtain v insertedAt where entry: "entry = (v, insertedAt)" by (cases entry)
  show ?thesis
  proof (cases "t2 - insertedAt < ttl (leakyLocalCachePeople w)")
    case True
    with assms(2) have "t1 - insertedAt < ttl (leakyLocalCachePeople w)" by simp
    with assms(1) Some entry have "\<not> truthy v"
      by (simp add: people_cache_get_def cache_get_def)
    with Some entry True show ?thesis
      by (simp add: people_cache_get_def cache_get_def)
  next
    case False
    with Some entry show ?thesis
      by (simp add: people_cache_get_def cache_get_def)
  qed
qed

text \<open>
  C2. When the lookup under the constant key returns a snapshot (or any value that
  passes the check of line 29), that cached snapshot is returned and the state is left
  as it was: \<open>getMembers\<close> is not invoked. When the lookup returns absent,
  \<open>getMembers\<close> is invoked exactly once, and the result it delivers is stored in the
  cache under the constant key and returned.
\<close>

theorem getPeople_fetch_or_populate:
  "(\<forall>m. cache_get (leakyLocalCachePeople w) t_get True = Some (Snapshot m) \<longrightarrow>
      getPeopleAcrossOrganizations operations t_get t_set w
        = (Inr \<lparr>members_of = Snapshot m\<rparr>, w))
   \<and> (\<forall>v. cache_get (leakyLocalCachePeople w) t_get True = Some v \<and> truthy v \<longrightarrow>
      getPeopleAcrossOrganizations operations t_get t_set w = (Inr \<lparr>members_of = v\<rparr>, w))
   \<and> (cache_get (leakyLocalCachePeople w) t_get True = None \<longrightarrow>
        fetches (snd (getPeopleAcrossOrganizations operations t_get t_set w)) = Suc (fetches w)
        \<and> (\<forall>fetched. getMembers operations (fetches w) = Inr fetched \<longrightarrow>
              getPeopleAcrossOrganizations operations t_get t_set w =
                (Inr \<lparr>members_of = fetched\<rparr>,
                 \<lparr>leakyLocalCachePeople = cache_set (leakyLocalCachePeople w) t_set True fetched,
                  fetches = Suc (fetches w)\<rparr>)))"
proof (intro conjI allI impI)
  fix m
  assume "cache_get (leakyLocalCachePeople w) t_get True = Some (Snapshot m)"
  then have "people_cache_get w t_get = Snapshot m"
    by (rule lookup_truthy)
  then show "getPeopleAcrossOrganizations operations t_get t_set w
      = (Inr \<lparr>members_of = Snapshot m\<rparr>, w)"
    using getPeople_hit [of w t_get operations t_set] by simp
next
  fix v
  assume "cache_get (leakyLocalCachePeople w) t_get True = Some v \<and> truthy v"
  then have "people_cache_get w t_get = v" and "truthy (people_cache_get w t_get)"
    by (simp_all add: lookup_truthy)
  then show "getPeopleAcrossOrganizations operations t_get t_set w = (Inr \<lparr>members_of = v\<rparr>, w)"
    using getPeople_hit [of w t_get operations t_set] by simp
next
  assume "cache_get (leakyLocalCachePeople w) t_get True = None"
  then have miss: "\<not> truthy (people_cache_get w t_get)"
    by (rule lookup_absent)
  show "fetches (snd (getPeopleAcrossOrganizations operations t_get t_set w)) = Suc (fetches w)"
    by (simp add: getPeople_miss [OF miss] split: sum.splits)
  fix fetched
  assume "getMembers operations (fetches w) = Inr fetched"
  then show "getPeopleAcrossOrganizations operations t_get t_set w =
      (Inr \<lparr>members_of = fetched\<rparr>,
       \<lparr>leakyLocalCachePeople = cache_set (leakyLocalCachePeople w) t_set True fetched,
        fetches = Suc (fetches w)\<rparr>)"
    by (simp add: getPeople_miss [OF miss])
qed

theorem getPeople_fetch_or_populate_witness:
  "getPeopleAcrossOrganizations (sample_operations null_then_snapshot) 2000 2500
       \<lparr>leakyLocalCachePeople = cache_set (newLeakyLocalCache 600000) 1000 True (Snapshot 7),
        fetches = 3\<rparr>
     = (Inr \<lparr>members_of = Snapshot 7\<rparr>,
        \<lparr>leakyLocalCachePeople = cache_set (newLeakyLocalCache 600000) 1000 True (Snapshot 7),
         fetches = 3\<rparr>)
   \<and> getPeopleAcrossOrganizations (sample_operations null_then_snapshot) 2000 2500
       \<lparr>leakyLocalCachePeople = newLeakyLocalCache 600000, fetches = 3\<rparr>
     = (Inr \<lparr>members_of = Snapshot 3\<rparr>,
        \<lparr>leakyLocalCachePeople = cache_set (newLeakyLocalCache 600000) 2500 True (Snapshot 3),
         fetches = 4\<rparr>)"
  using getPeople_fetch_or_populate
      [of "\<lparr>leakyLocalCachePeople = cache_set (newLeakyLocalCache 600000) 1000 True (Snapshot 7),
            fetches = 3\<rparr>" 2000 "sample_operations null_then_snapshot" 2500]
    getPeople_fetch_or_populate
      [of "\<lparr>leakyLocalCachePeople = newLeakyLocalCache 600000, fetches = 3\<rparr>"
          2000 "sample_operations null_then_snapshot" 2500]
  by (simp add: cache_get_def cache_set_def newLeakyLocalCache_def sample_operations_def
      null_then_snapshot_def)

text \<open>
  C3. When a call fetches (the lookup gave nothing truthy) and \<open>getMembers\<close> fails, the
  failure is the outcome of the call and the cache is what it was before the call:
  nothing is stored. Hence a call at any later time invokes \<open>getMembers\<close> again.
\<close>

theorem getPeople_failure_not_cached:
  assumes "\<not> truthy (people_cache_get w t_get)"
    and "getMembers operations (fetches w) = Inl e"
  shows "fst (getPeopleAcrossOrganizations operations t_get t_set w) = Inl e
       \<and> leakyLocalCachePeople (snd (getPeopleAcrossOrganizations operations t_get t_set w))
           = leakyLocalCachePeople w
       \<and> fetches (snd (getPeopleAcrossOrganizations operations t_get t_set w)) = Suc (fetches w)
       \<and> (\<forall>t_get' t_set'. t_get \<le> t_get' \<longrightarrow>
             fetches (snd (getPeopleAcrossOrganizations operations t_get' t_set'
               (snd (getPeopleAcrossOrganizations operations t_get t_set w))))
             = Suc (Suc (fetches w)))"
proof -
  let ?w1 = "w\<lparr>fetches := Suc (fetches w)\<rparr>"
  have first: "getPeopleAcrossOrganizations operations t_get t_set w = (Inl e, ?w1)"
    by (simp add: getPeople_miss [OF assms(1)] assms(2))
  have again: "fetches (snd (getPeopleAcrossOrganizations operations t_get' t_set' ?w1))
      = Suc (Suc (fetches w))" if later: "t_get \<le> t_get'" for t_get' t_set'
  proof -
    have "people_cache_get ?w1 t_get = people_cache_get w t_get"
      by (simp add: people_cache_get_def)
    with assms(1) have "\<not> truthy (people_cache_get ?w1 t_get)" by simp
    then have "\<not> truthy (people_cache_get ?w1 t_get')"
      using later by (rule stale_stays_stale)
    then show ?thesis
      by (simp add: getPeople_miss split: sum.splits)
  qed
  show ?thesis
    using again by (simp add: first)
qed

theorem getPeople_failure_not_cached_witness:
  "fst (getPeopleAcrossOrganizations (sample_operations failure_then_snapshot) 0 500
          (initial_world 600000)) = Inl (Error ''unavailable'')
   \<and> leakyLocalCachePeople (snd (getPeopleAcrossOrganizations
          (sample_operations failure_then_snapshot) 0 500 (initial_world 600000)))
       = newLeakyLocalCache 600000
   \<and> fetches (snd (getPeopleAcrossOrganizations (sample_operations failure_then_snapshot)
          1000 1500
          (snd (getPeopleAcrossOrganizations (sample_operations failure_then_snapshot) 0 500
             (initial_world 600000))))) = 2"
proof -
  have miss: "\<not> truthy (people_cache_get (initial_world 600000 :: nat world) 0)"
    by (simp add: people_cache_get_def cache_get_def initial_world_def newLeakyLocalCache_def)
  have fails: "getMembers (sample_operations failure_then_snapshot)
      (fetches (initial_world 600000 :: nat world)) = Inl (Error ''unavailable'')"
    by (simp add: sample_operations_def failure_then_snapshot_def initial_world_def)
  show ?thesis
    using getPeople_failure_not_cached [OF miss fails, of 500]
    by (simp add: initial_world_def)
qed

text \<open>
  C9. The check of line 29 is a truthiness check. When the cache holds a value that is
  not truthy under the constant key, the call proceeds as on a miss: its outcome and
  the number of fetches are those of the same call on the state with the slot emptied,
  \<open>getMembers\<close> is invoked, and a result it delivers is returned and overwrites the
  slot. A call that does not fetch returns a truthy value.
\<close>

theorem getPeople_falsy_is_miss:
  assumes "cache_get (leakyLocalCachePeople w) t_get True = Some v" and "\<not> truthy v"
  shows "fst (getPeopleAcrossOrganizations operations t_get t_set
               (w\<lparr>leakyLocalCachePeople := (leakyLocalCachePeople w)
                    \<lparr>entries := (entries (leakyLocalCachePeople w))(True := None)\<rparr>\<rparr>))
           = fst (getPeopleAcrossOrganizations operations t_get t_set w)
       \<and> fetches (snd (getPeopleAcrossOrganizations operations t_get t_set w)) = Suc (fetches w)
       \<and> (\<forall>fetched. getMembers operations (fetches w) = Inr fetched \<longrightarrow>
             fst (getPeopleAcrossOrganizations operations t_get t_set w)
               = Inr \<lparr>members_of = fetched\<rparr>
             \<and> entries (leakyLocalCachePeople
                  (snd (getPeopleAcrossOrganizations operations t_get t_set w))) True
               = Some (fetched, t_set))
       \<and> (\<forall>w' t' t'' found.
             getPeopleAcrossOrganizations operations t' t'' w' = (Inr found, w') \<and>
             fetches (snd (getPeopleAcrossOrganizations operations t' t'' w')) = fetches w'
             \<longrightarrow> truthy (members_of found))"
proof -
  let ?emptied = "w\<lparr>leakyLocalCachePeople := (leakyLocalCachePeople w)
      \<lparr>entries := (entries (leakyLocalCachePeople w))(True := None)\<rparr>\<rparr>"
  have miss: "\<not> truthy (people_cache_get w t_get)"
    using assms by (simp add: lookup_truthy)
  have miss': "\<not> truthy (people_cache_get ?emptied t_get)"
    by (simp add: people_cache_get_def cache_get_def)
  have same: "fst (getPeopleAcrossOrganizations operations t_get t_set ?emptied)
      = fst (getPeopleAcrossOrganizations operations t_get t_set w)"
    by (simp add: getPeople_miss [OF miss] getPeople_miss [OF miss'] split: sum.splits)
  have once: "fetches (snd (getPeopleAcrossOrganizations operations t_get t_set w))
      = Suc (fetches w)"
    by (simp add: getPeople_miss [OF miss] split: sum.splits)
  have stored: "fst (getPeopleAcrossOrganizations operations t_get t_set w)
        = Inr \<lparr>members_of = fetched\<rparr>
      \<and> entries (leakyLocalCachePeople
           (snd (getPeopleAcrossOrganizations operations t_get t_set w))) True
        = Some (fetched, t_set)"
    if "getMembers operations (fetches w) = Inr fetched" for fetched
    using that by (simp add: getPeople_miss [OF miss] cache_set_def)
  have served: "truthy (members_of found)"
    if "getPeopleAcrossOrganizations operations t' t'' w' = (Inr found, w') \<and>
        fetches (snd (getPeopleAcrossOrganizations operations t' t'' w')) = fetches w'"
    for w' :: "'a world" and t' t'' found
  proof (cases "truthy (people_cache_get w' t')")
    case True
    with that show ?thesis
      by (auto simp add: getPeople_hit)
  next
    case False
    with that show ?thesis
      by (simp add: getPeople_miss split: sum.splits)
  qed
  show ?thesis
    using same once stored served by blast
qed

theorem getPeople_falsy_is_miss_witness:
  "fst (getPeopleAcrossOrganizations (sample_operations null_then_snapshot) 1000 1500
          \<lparr>leakyLocalCachePeople = cache_set (newLeakyLocalCache 600000) 500 True Null,
           fetches = 1\<rparr>)
     = Inr \<lparr>members_of = Snapshot 1\<rparr>
   \<and> fetches (snd (getPeopleAcrossOrganizations (sample_operations null_then_snapshot) 1000 1500
          \<lparr>leakyLocalCachePeople = cache_set (newLeakyLocalCache 600000) 500 True Null,
           fetches = 1\<rparr>)) = 2
   \<and> entries (leakyLocalCachePeople
        (snd (getPeopleAcrossOrganizations (sample_operations null_then_snapshot) 1000 1500
          \<lparr>leakyLocalCachePeople = cache_set (newLeakyLocalCache 600000) 500 True Null,
           fetches = 1\<rparr>))) True
     = Some (Snapshot 1, 1500)"
proof -
  have held: "cache_get (leakyLocalCachePeople
      \<lparr>leakyLocalCachePeople = cache_set (newLeakyLocalCache 600000) 500 True (Null :: nat js_value),
       fetches = 1\<rparr>) 1000 True = Some Null"
    by (simp add: cache_get_def cache_set_def newLeakyLocalCache_def)
  have falsy: "\<not> truthy (Null :: nat js_value)"
    by simp
  have resolves: "getMembers (sample_operations null_then_snapshot) (Suc 0) = Inr (Snapshot 1)"
    by (simp add: sample_operations_def null_then_snapshot_def)
  show ?thesis
    using getPeople_falsy_is_miss [OF held falsy, of "sample_operations null_then_snapshot" 1500]
      resolves
    by simp
qed

section \<open>The pager\<close>

lemma take_drop_nths:
  "take n (drop m xs) = map (\<lambda>i. xs ! i) [m ..< min (m + n) (length xs)]"
proof (rule nth_equalityI)
  show "length (take n (drop m xs)) = length (map (\<lambda>i. xs ! i) [m ..< min (m + n) (length xs)])"
    by (auto simp add: min_def)
next
  fix i
  assume "i < length (take n (drop m xs))"
  then have "i < n" and "m + i < length xs"
    by auto
  then show "take n (drop m xs) ! i = map (\<lambda>i. xs ! i) [m ..< min (m + n) (length xs)] ! i"
    by simp
qed

lemma take_drop_segment:
  "xs = take m xs @ take n (drop m xs) @ drop (m + n) xs"
proof -
  have "drop m xs = take n (drop m xs) @ drop (m + n) xs"
    by (metis append_take_drop_id drop_drop add.commute)
  then have "take m xs @ drop m xs = take m xs @ take n (drop m xs) @ drop (m + n) xs"
    by simp
  then show ?thesis
    by simp
qed

text \<open>
  C4. For a collection of length \<open>L\<close>, a page size \<open>P > 0\<close> and a page number
  \<open>N \<ge> 1\<close>, \<open>slice\<close> returns the elements at the indices from \<open>(N - 1) * P\<close> up to
  \<open>N * P\<close>, clipped to \<open>L\<close>, in their order: the collection is the elements before
  the page, the page and the elements after it. When \<open>(N - 1) * P \<ge> L\<close> the page is
  empty; \<open>slice\<close> has no failing outcome.
\<close>

theorem slice_contiguous_page:
  assumes "0 < pager_pageSize pager" and "1 \<le> requested_page pager"
  shows "slice pager xs =
           map (\<lambda>i. xs ! i)
             [nat (requested_page pager - 1) * pager_pageSize pager ..<
              min (nat (requested_page pager) * pager_pageSize pager) (length xs)]
       \<and> xs = take (nat (requested_page pager - 1) * pager_pageSize pager) xs
              @ slice pager xs
              @ drop (nat (requested_page pager) * pager_pageSize pager) xs
       \<and> (length xs \<le> nat (requested_page pager - 1) * pager_pageSize pager \<longrightarrow>
            slice pager xs = [])"
proof -
  let ?P = "pager_pageSize pager"
  let ?off = "nat (requested_page pager - 1) * ?P"
  have page: "pager_page pager = requested_page pager"
    using assms(2) by (simp add: pager_page_def)
  have "nat (requested_page pager) = Suc (nat (requested_page pager - 1))"
    using assms(2) by simp
  then have upper: "nat (requested_page pager) * ?P = ?off + ?P"
    by simp
  have sl: "slice pager xs = take ?P (drop ?off xs)"
    by (simp add: slice_def page)
  have "slice pager xs = map (\<lambda>i. xs ! i) [?off ..< min (?off + ?P) (length xs)]"
    unfolding sl by (rule take_drop_nths)
  moreover have "xs = take ?off xs @ slice pager xs @ drop (?off + ?P) xs"
    unfolding sl by (rule take_drop_segment)
  moreover have "length xs \<le> ?off \<longrightarrow> slice pager xs = []"
    by (simp add: sl)
  ultimately show ?thesis
    unfolding upper by blast
qed

theorem slice_contiguous_page_witness:
  "slice \<lparr>requested_page = 2, pager_pageSize = 2\<rparr> [10, 20, 30 :: nat] = [30]
   \<and> slice \<lparr>requested_page = 3, pager_pageSize = 2\<rparr> [10, 20, 30 :: nat] = []"
proof -
  have "slice \<lparr>requested_page = 2, pager_pageSize = 2\<rparr> [10, 20, 30 :: nat]
      = map (\<lambda>i. [10, 20, 30 :: nat] ! i) [2 ..< 3]"
    using slice_contiguous_page [of "\<lparr>requested_page = 2, pager_pageSize = 2\<rparr>" "[10, 20, 30 :: nat]"]
    by simp
  moreover have "slice \<lparr>requested_page = 3, pager_pageSize = 2\<rparr> [10, 20, 30 :: nat] = []"
    using slice_contiguous_page [of "\<lparr>requested_page = 3, pager_pageSize = 2\<rparr>" "[10, 20, 30 :: nat]"]
    by simp
  ultimately show ?thesis
    by (simp add: upt_conv_Cons)
qed

text \<open>
  C8. When the request has no \<open>page_number\<close>, the page handed to the search (line 43)
  is 1 and so is the page of the pager. The page of the pager is never below 1: a
  requested page below 1 is replaced by 1, so that \<open>slice\<close> then returns the first
  page.
\<close>

theorem page_number_default_and_floor:
  "(page_number (req_query req) = None \<longrightarrow>
      search_page operations req = 1
      \<and> pager_page (newJsonPager operations page_size req) = 1)
   \<and> 1 \<le> pager_page (newJsonPager operations page_size req)
   \<and> (requested_page (newJsonPager operations page_size req) < 1 \<longrightarrow>
        pager_page (newJsonPager operations page_size req) = 1
        \<and> slice (newJsonPager operations page_size req) xs = take page_size xs)"
proof (intro conjI impI)
  assume absent: "page_number (req_query req) = None"
  then show "search_page operations req = 1"
    by (simp add: search_page_def)
  with absent show "pager_page (newJsonPager operations page_size req) = 1"
    by (simp add: pager_page_def newJsonPager_def)
next
  show "1 \<le> pager_page (newJsonPager operations page_size req)"
    by (simp add: pager_page_def)
next
  assume below: "requested_page (newJsonPager operations page_size req) < 1"
  then show first: "pager_page (newJsonPager operations page_size req) = 1"
    by (simp add: pager_page_def)
  have "pager_pageSize (newJsonPager operations page_size req) = page_size"
    by (simp add: newJsonPager_def)
  with first show "slice (newJsonPager operations page_size req) xs = take page_size xs"
    by (simp add: slice_def)
qed

theorem page_number_default_and_floor_witness:
  "search_page (sample_operations null_then_snapshot)
       \<lparr>req_query = \<lparr>page_number = None, q = None, type_param = None, sort_param = None\<rparr>,
        organization = None\<rparr> = 1
   \<and> pager_page (newJsonPager (sample_operations null_then_snapshot) 2
       \<lparr>req_query = \<lparr>page_number = None, q = None, type_param = None, sort_param = None\<rparr>,
        organization = None\<rparr>) = 1
   \<and> requested_page (newJsonPager (sample_operations null_then_snapshot) 2
       \<lparr>req_query = \<lparr>page_number = Some ''-3'', q = None, type_param = None, sort_param = None\<rparr>,
        organization = None\<rparr>) = - 3
   \<and> pager_page (newJsonPager (sample_operations null_then_snapshot) 2
       \<lparr>req_query = \<lparr>page_number = Some ''-3'', q = None, type_param = None, sort_param = None\<rparr>,
        organization = None\<rparr>) = 1
   \<and> slice (newJsonPager (sample_operations null_then_snapshot) 2
       \<lparr>req_query = \<lparr>page_number = Some ''-3'', q = None, type_param = None, sort_param = None\<rparr>,
        organization = None\<rparr>) [10, 20, 30 :: nat] = [10, 20]"
proof -
  have requested: "requested_page (newJsonPager (sample_operations null_then_snapshot) 2
       \<lparr>req_query = \<lparr>page_number = Some ''-3'', q = None, type_param = None, sort_param = None\<rparr>,
        organization = None\<rparr>) = - 3"
    by (simp add: newJsonPager_def search_page_def sample_operations_def digits_value_def)
  have absent: "page_number (req_query
       \<lparr>req_query = \<lparr>page_number = None, q = None, type_param = None, sort_param = None\<rparr>,
        organization = None\<rparr>) = None"
    by simp
  have first_page: "take 2 [10, 20, 30 :: nat] = [10, 20]"
    by simp
  show ?thesis
    using page_number_default_and_floor
        [of "\<lparr>req_query = \<lparr>page_number = None, q = None, type_param = None, sort_param = None\<rparr>,
              organization = None\<rparr>" "sample_operations null_then_snapshot" 2 "[]"]
      page_number_default_and_floor
        [of "\<lparr>req_query = \<lparr>page_number = Some ''-3'', q = None, type_param = None,
                 sort_param = None\<rparr>, organization = None\<rparr>"
            "sample_operations null_then_snapshot" 2 "[10, 20, 30 :: nat]"]
    unfolding requested first_page
    using absent by fastforce
qed

section \<open>The type filter\<close>

lemma search_type_invalid:
  "type_param (req_query req) = Some t \<Longrightarrow> t \<notin> set validTypes \<Longrightarrow> search_type req = None"
  by (simp add: search_type_def)

lemma search_type_absent:
  "search_type (req\<lparr>req_query := (req_query req)\<lparr>type_param := None\<rparr>\<rparr>) = None"
  by (simp add: search_type_def)

text \<open>
  C5. A \<open>type\<close> query value outside the seven valid types reaches the search as no
  type (\<open>null\<close>), and the request behaves as the same request without a \<open>type\<close>
  parameter: the options of the search, the filters, the outcome of
  \<open>equivalentLegacyPeopleSearch\<close> and the outcome of the route are the same.
\<close>

theorem invalid_type_is_no_type:
  assumes "type_param (req_query req) = Some t" and "t \<notin> set validTypes"
  shows "type (member_search_options req (links_found :: 'l) (members :: 'm js_value)) = None
       \<and> member_search_options req links_found members
           = member_search_options (req\<lparr>req_query := (req_query req)\<lparr>type_param := None\<rparr>\<rparr>)
               links_found members
       \<and> search_filters req
           = search_filters (req\<lparr>req_query := (req_query req)\<lparr>type_param := None\<rparr>\<rparr>)
       \<and> equivalentLegacyPeopleSearch (operations :: ('m, 'l, 'c, 'j) providers) t_get t_set req w
           = equivalentLegacyPeopleSearch operations t_get t_set
               (req\<lparr>req_query := (req_query req)\<lparr>type_param := None\<rparr>\<rparr>) w
       \<and> people_route operations page_size t_get t_set req w
           = people_route operations page_size t_get t_set
               (req\<lparr>req_query := (req_query req)\<lparr>type_param := None\<rparr>\<rparr>) w"
proof -
  let ?req' = "req\<lparr>req_query := (req_query req)\<lparr>type_param := None\<rparr>\<rparr>"
  have ty: "search_type req = None"
    using assms by (rule search_type_invalid)
  have ty': "search_type ?req' = None"
    by (rule search_type_absent)
  have options: "member_search_options req l m = member_search_options ?req' l m"
    for l :: 'l and m :: "'m js_value"
    by (simp add: member_search_options_def ty ty')
  have filters: "search_filters req = search_filters ?req'"
    by (simp add: search_filters_def ty ty')
  have page: "search_page operations req = search_page operations ?req'"
    by (simp add: search_page_def)
  have search: "equivalentLegacyPeopleSearch operations t_get t_set req w
      = equivalentLegacyPeopleSearch operations t_get t_set ?req' w"
    by (simp add: equivalentLegacyPeopleSearch_def options page split: sum.splits prod.splits)
  have pager: "newJsonPager operations page_size req = newJsonPager operations page_size ?req'"
    by (simp add: newJsonPager_def page)
  have route: "people_route operations page_size t_get t_set req w
      = people_route operations page_size t_get t_set ?req' w"
    by (simp add: people_route_def search pager)
  have "type (member_search_options req links_found members) = None"
    by (simp add: member_search_options_def ty)
  then show ?thesis
    using options filters search route by simp
qed

theorem invalid_type_is_no_type_witness:
  "type (member_search_options
       \<lparr>req_query = \<lparr>page_number = None, q = None, type_param = Some ''admins'',
          sort_param = None\<rparr>, organization = None\<rparr> () (Snapshot (1::nat))) = None
   \<and> people_route (sample_operations null_then_snapshot) 2 1000 1500
       \<lparr>req_query = \<lparr>page_number = None, q = None, type_param = Some ''admins'',
          sort_param = None\<rparr>, organization = None\<rparr> (initial_world 600000)
     = people_route (sample_operations null_then_snapshot) 2 1000 1500
       \<lparr>req_query = \<lparr>page_number = None, q = None, type_param = None,
          sort_param = None\<rparr>, organization = None\<rparr> (initial_world 600000)"
proof -
  have given: "type_param (req_query
       \<lparr>req_query = \<lparr>page_number = None, q = None, type_param = Some ''admins'',
          sort_param = None\<rparr>, organization = None\<rparr>) = Some ''admins''"
    by simp
  have invalid: "''admins'' \<notin> set validTypes"
    by (simp add: validTypes_def)
  show ?thesis
    using invalid_type_is_no_type [OF given invalid, of "()" "Snapshot (1::nat)"
        "sample_operations null_then_snapshot" 1000 1500 "initial_world 600000" 2]
    by (simp add: member_search_options_def search_type_def validTypes_def)
qed

section \<open>The output record\<close>

lemma map_of_assign_property: "map_of (assign_property obj k v) = (map_of obj)(k \<mapsto> v)"
  by (induction obj k v rule: assign_property.induct) (auto simp add: fun_eq_iff)

lemma map_of_Object_assign:
  "map_of (Object_assign target source) = map_of target ++ map_of (rev source)"
proof (induction target source rule: Object_assign.induct)
  case (1 target)
  show ?case by simp
next
  case (2 target k v rest)
  have "map_of (Object_assign target ((k, v) # rest))
      = map_of (assign_property target k v) ++ map_of (rev rest)"
    using "2.IH" by simp
  also have "\<dots> = (map_of target)(k \<mapsto> v) ++ map_of (rev rest)"
    by (simp only: map_of_assign_property)
  also have "\<dots> = (map_of target ++ [k \<mapsto> v]) ++ map_of (rev rest)"
    by simp
  also have "\<dots> = map_of target ++ ([k \<mapsto> v] ++ map_of (rev rest))"
    by (simp only: map_add_assoc)
  also have "\<dots> = map_of target ++ map_of (rev ((k, v) # rest))"
    by simp
  finally show ?case .
qed

lemma member_to_output_with_account:
  assumes "account xMember = Some a"
  shows "member_to_output operations xMember =
     [(''link'', case link xMember of
                   Some l \<Rightarrow> JLink (corporateLinkToJson operations l)
                 | None \<Rightarrow> JNull),
      (''id'', JNumber (account_id a)),
      (''organizations'', case orgs xMember of
                            Some os \<Rightarrow> JStrings (map fst os)
                          | None \<Rightarrow> JStrings []),
      (''login'', JString (login a)),
      (''avatar_url'', JString (avatar_url a))]"
  by (simp add: member_to_output_def account_object_def assms)

lemma member_to_output_without_account:
  assumes "account xMember = None"
  shows "member_to_output operations xMember =
     [(''link'', case link xMember of
                   Some l \<Rightarrow> JLink (corporateLinkToJson operations l)
                 | None \<Rightarrow> JNull),
      (''id'', JNumber (member_id xMember)),
      (''organizations'', case orgs xMember of
                            Some os \<Rightarrow> JStrings (map fst os)
                          | None \<Rightarrow> JStrings [])]"
  by (simp add: member_to_output_def assms)

text \<open>
  C6. The property \<open>organizations\<close> of the output is the list of the keys of the
  per-organization mapping of the member, in the order of the mapping, and the empty
  list when the member has no mapping. The output does not depend on the values of the
  mapping: two members that differ in those values only have the same output.
\<close>

theorem output_organizations_keys_only:
  "get_property (member_to_output operations xMember) ''organizations''
     = Some (JStrings (case orgs xMember of Some os \<Rightarrow> map fst os | None \<Rightarrow> []))
   \<and> (\<forall>os os'. map fst os = map fst os' \<longrightarrow>
         member_to_output operations (xMember\<lparr>orgs := Some os\<rparr>)
           = member_to_output operations (xMember\<lparr>orgs := Some os'\<rparr>))"
proof (intro conjI allI impI)
  show "get_property (member_to_output operations xMember) ''organizations''
     = Some (JStrings (case orgs xMember of Some os \<Rightarrow> map fst os | None \<Rightarrow> []))"
  proof (cases "account xMember")
    case None
    then show ?thesis
      by (simp add: member_to_output_without_account get_property_def split: option.splits)
  next
    case (Some a)
    then show ?thesis
      by (simp add: member_to_output_with_account get_property_def split: option.splits)
  qed
next
  fix os os' :: "(string \<times> ISimpleAccount) list"
  assume "map fst os = map fst os'"
  then show "member_to_output operations (xMember\<lparr>orgs := Some os\<rparr>)
      = member_to_output operations (xMember\<lparr>orgs := Some os'\<rparr>)"
    by (simp add: member_to_output_def cong: option.case_cong)
qed

theorem output_organizations_keys_only_witness:
  "get_property (member_to_output (sample_operations null_then_snapshot) (sample_members ! 0))
       ''organizations'' = Some (JStrings [''org-a'', ''org-b''])
   \<and> get_property (member_to_output (sample_operations null_then_snapshot) (sample_members ! 2))
       ''organizations'' = Some (JStrings [])
   \<and> member_to_output (sample_operations null_then_snapshot)
        ((sample_members ! 0)\<lparr>orgs := Some [(''org-a'', octocat), (''org-b'', octocat)]\<rparr>)
     = member_to_output (sample_operations null_then_snapshot)
        ((sample_members ! 0)\<lparr>orgs := Some [(''org-a'', hubot), (''org-b'', hubot)]\<rparr>)"
  using output_organizations_keys_only
      [of "sample_operations null_then_snapshot" "sample_members ! 0"]
    output_organizations_keys_only
      [of "sample_operations null_then_snapshot" "sample_members ! 2"]
  by (simp add: sample_members_def)

text \<open>
  C7. With an account, the output has the login, the avatar reference and the id of
  the account. Without one, the object merged in holds the id of the member and nothing
  else: the output has that id and neither a login nor an avatar reference. In both
  cases the property \<open>link\<close> is the serialized corporate link of the member, or
  \<open>null\<close> when the member has none.
\<close>

theorem output_identity_and_link:
  "(\<forall>a. account xMember = Some a \<longrightarrow>
       get_property (member_to_output operations xMember) ''login'' = Some (JString (login a))
       \<and> get_property (member_to_output operations xMember) ''avatar_url''
           = Some (JString (avatar_url a))
       \<and> get_property (member_to_output operations xMember) ''id''
           = Some (JNumber (account_id a)))
   \<and> (account xMember = None \<longrightarrow>
        get_property (member_to_output operations xMember) ''id''
           = Some (JNumber (member_id xMember))
        \<and> get_property (member_to_output operations xMember) ''login'' = None
        \<and> get_property (member_to_output operations xMember) ''avatar_url'' = None
        \<and> map fst (member_to_output operations xMember) = [''link'', ''id'', ''organizations''])
   \<and> get_property (member_to_output operations xMember) ''link''
        = Some (case link xMember of
                  Some l \<Rightarrow> JLink (corporateLinkToJson operations l)
                | None \<Rightarrow> JNull)"
proof (cases "account xMember")
  case None
  then show ?thesis
    by (simp add: member_to_output_without_account get_property_def)
next
  case (Some a)
  then show ?thesis
    by (simp add: member_to_output_with_account get_property_def)
qed

theorem output_identity_and_link_witness:
  "get_property (member_to_output (sample_operations null_then_snapshot) (sample_members ! 0))
       ''login'' = Some (JString ''octocat'')
   \<and> get_property (member_to_output (sample_operations null_then_snapshot) (sample_members ! 0))
       ''link'' = Some (JLink ''{octocat@corp}'')
   \<and> member_to_output (sample_operations null_then_snapshot) (sample_members ! 2)
       = [(''link'', JNull), (''id'', JNumber 3), (''organizations'', JStrings [])]"
proof -
  have "get_property (member_to_output (sample_operations null_then_snapshot)
        (sample_members ! 0)) ''login'' = Some (JString ''octocat'')
      \<and> get_property (member_to_output (sample_operations null_then_snapshot)
        (sample_members ! 0)) ''link'' = Some (JLink ''{octocat@corp}'')"
    using output_identity_and_link
        [of "sample_members ! 0" "sample_operations null_then_snapshot"]
    by (simp add: sample_members_def octocat_def sample_operations_def)
  moreover have "member_to_output (sample_operations null_then_snapshot) (sample_members ! 2)
       = [(''link'', JNull), (''id'', JNumber 3), (''organizations'', JStrings [])]"
    by (simp add: member_to_output_without_account sample_members_def)
  ultimately show ?thesis
    by simp
qed

text \<open>
  C10. With an account, the properties of the account are merged over the base object
  of link, id and organizations: every property of the account is in the output with
  the value the account gives it. The one name the account shares with the base is
  \<open>id\<close>, so the id of the output is the id of the account, whatever the id of the
  member is.
\<close>

theorem account_overrides_base:
  assumes "account xMember = Some a"
  shows "(\<forall>k v. get_property (account_object a) k = Some v \<longrightarrow>
            get_property (member_to_output (operations :: ('m, 'l, 'c, 'j) providers) xMember) k
              = Some v)
       \<and> get_property (member_to_output operations xMember) ''id'' = Some (JNumber (account_id a))
       \<and> (\<forall>target source :: 'j object. \<forall>k v. get_property (rev source) k = Some v \<longrightarrow>
            get_property (Object_assign target source) k = Some v)"
proof (intro conjI allI impI)
  fix k and v :: "'j json"
  assume "get_property (account_object a) k = Some v"
  then show "get_property (member_to_output operations xMember) k = Some v"
    by (simp add: member_to_output_with_account [OF assms] get_property_def account_object_def
        split: if_splits)
next
  show "get_property (member_to_output operations xMember) ''id'' = Some (JNumber (account_id a))"
    by (simp add: member_to_output_with_account [OF assms] get_property_def)
next
  fix target source :: "'j object" and k v
  assume "get_property (rev source) k = Some v"
  then show "get_property (Object_assign target source) k = Some v"
    by (simp add: get_property_def map_of_Object_assign)
qed

theorem account_overrides_base_witness:
  "get_property (member_to_output (sample_operations null_then_snapshot)
       \<lparr>member_id = 99, account = Some octocat, link = None, orgs = None\<rparr>) ''id''
     = Some (JNumber 1)"
proof -
  have present: "account \<lparr>member_id = 99, account = Some octocat, link = None :: string option,
      orgs = None\<rparr> = Some octocat"
    by simp
  show ?thesis
    using account_overrides_base [OF present, of "sample_operations null_then_snapshot",
        THEN conjunct2, THEN conjunct1]
    by (simp add: octocat_def)
qed

end
